theory Spec2Isabelle
  imports Main
begin

section \<open>Values, request objects and promises\<close>

text \<open>
  The hooks are TypeScript. A JavaScript value that crosses the transport (a response
  body, the customer, an item) is a \<open>json\<close>; an object is a map from property names to
  values, so that a property can be absent, or present with the value \<open>undefined\<close>.
  Numbers are the integers; no claim depends on a fraction or on \<open>NaN\<close>.
\<close>

datatype json =
    JUndefined
  | JNull
  | JBool bool
  | JNumber int
  | JString string
  | JArray "json list"
  | JObject "string \<Rightarrow> json option"

type_synonym obj = "string \<rightharpoonup> json"

text \<open>An optional or nullable parameter (\<open>options: HookFetcherOptions | null\<close>,
  \<open>swrOptions?: SwrOptions\<close>, \<open>opts?: UseWishlistOptions\<close>).\<close>

datatype 'a nullable = Undefined | Null | Val 'a

text \<open>\<open>!v\<close> is \<open>\<not> truthy v\<close>.\<close>

fun truthy :: "json \<Rightarrow> bool" where
  "truthy JUndefined = False"
| "truthy JNull = False"
| "truthy (JBool b) = b"
| "truthy (JNumber n) = (n \<noteq> 0)"
| "truthy (JString s) = (s \<noteq> [])"
| "truthy (JArray xs) = True"
| "truthy (JObject m) = True"

text \<open>Object spread \<open>{...a, ...b}\<close>: the properties of \<open>b\<close> are copied over those of
  \<open>a\<close>; spreading \<open>null\<close> or \<open>undefined\<close> copies nothing.\<close>

fun props :: "obj nullable \<Rightarrow> obj" where
  "props Undefined = Map.empty"
| "props Null = Map.empty"
| "props (Val m) = m"

definition spread :: "obj \<Rightarrow> obj nullable \<Rightarrow> obj" where
  "spread a b = a ++ props b"

text \<open>Modelled from the spec: the class \<open>CommerceError\<close> (\<open>src/utils/errors\<close>) is not
  among the sources; the spec gives it a message, an optional code and an optional
  status.\<close>

datatype commerce_error =
  CommerceError (message: string) (code: "string option") (status: "int option")

text \<open>
  A promise is the computation it stands for: settled (\<open>Resolve\<close>, \<open>Reject\<close>), or
  suspended on an effect \<open>'e\<close> of the host (a transport request, a cache
  revalidation) with the continuation that receives the effect's outcome.
\<close>

datatype 'e promise =
    Resolve json
  | Reject commerce_error
  | Await 'e "commerce_error + json \<Rightarrow> 'e promise"

text \<open>\<open>const v = await p; k v\<close> outside any \<open>try\<close>: a rejection of \<open>p\<close> rejects the
  whole \<open>async\<close> function.\<close>

primrec await :: "'e promise \<Rightarrow> (json \<Rightarrow> 'e promise) \<Rightarrow> 'e promise" where
  "await (Resolve v) k = k v"
| "await (Reject e) k = Reject e"
| "await (Await eff c) k = Await eff (\<lambda>r. await (c r) k)"

text \<open>The host runs a promise to completion in a world \<open>'w\<close>; \<open>h\<close> performs one effect.
  \<open>performed\<close> lists the effects the run performs, in order.\<close>

primrec run ::
  "('e \<Rightarrow> 'w \<Rightarrow> (commerce_error + json) \<times> 'w) \<Rightarrow> 'e promise \<Rightarrow> 'w
     \<Rightarrow> (commerce_error + json) \<times> 'w" where
  "run h (Resolve v) w = (Inr v, w)"
| "run h (Reject e) w = (Inl e, w)"
| "run h (Await eff c) w = (case h eff w of (r, w') \<Rightarrow> run h (c r) w')"

primrec performed ::
  "('e \<Rightarrow> 'w \<Rightarrow> (commerce_error + json) \<times> 'w) \<Rightarrow> 'e promise \<Rightarrow> 'w \<Rightarrow> 'e list" where
  "performed h (Resolve v) w = []"
| "performed h (Reject e) w = []"
| "performed h (Await eff c) w = (case h eff w of (r, w') \<Rightarrow> eff # performed h (c r) w')"

text \<open>The effects of the host: a transport request with its request spec, and the
  revalidation of a cache key. The fetch function of the provider makes one transport
  request, whose outcome settles the promise.\<close>

definition settle :: "commerce_error + json \<Rightarrow> 'e promise" where
  "settle r = (case r of Inl e \<Rightarrow> Reject e | Inr v \<Rightarrow> Resolve v)"

datatype effect = Request obj | Revalidation string

definition transport :: "obj \<Rightarrow> effect promise" where
  "transport spec = Await (Request spec) settle"

type_synonym 'e fetch_fn = "obj \<Rightarrow> 'e promise"

type_synonym ('i, 'e) HookFetcher = "obj nullable \<Rightarrow> 'i \<Rightarrow> 'e fetch_fn \<Rightarrow> 'e promise"

section \<open>The customer hook (\<open>src/unnamed/part_002\<close>)\<close>

definition customer_defaultOpts :: obj where
  "customer_defaultOpts =
     [''url'' \<mapsto> JString ''/api/bigcommerce/customers'', ''method'' \<mapsto> JString ''GET'']"

text \<open>\<open>data?.customer\<close>: \<open>undefined\<close> when \<open>data\<close> is \<open>null\<close> or \<open>undefined\<close>, the
  property otherwise (\<open>undefined\<close> when \<open>data\<close> has no such property).\<close>

fun optional_customer :: "json \<Rightarrow> json" where
  "optional_customer JUndefined = JUndefined"
| "optional_customer JNull = JUndefined"
| "optional_customer (JObject m) = (case m ''customer'' of None \<Rightarrow> JUndefined | Some v \<Rightarrow> v)"
| "optional_customer (JBool b) = JUndefined"
| "optional_customer (JNumber n) = JUndefined"
| "optional_customer (JString s) = JUndefined"
| "optional_customer (JArray xs) = JUndefined"

text \<open>\<open>a ?? b\<close>.\<close>

fun nullish_coalesce :: "json \<Rightarrow> json \<Rightarrow> json" where
  "nullish_coalesce JUndefined b = b"
| "nullish_coalesce JNull b = b"
| "nullish_coalesce a b = a"

definition customer_fetcher :: "(json, 'e) HookFetcher" where
  "customer_fetcher options _ fetch =
     await (fetch (spread customer_defaultOpts options))
       (\<lambda>data. Resolve (nullish_coalesce (optional_customer data) JNull))"

text \<open>
  A hook is a function object: the closure \<open>useCustomer\<close> (or \<open>useAddItem\<close>) with the
  variables it captured, and its own properties. \<open>extendHook\<close> allocates one and then
  assigns its property \<open>extend\<close>, so function objects live in a heap and a hook is an
  address. The module-level functions that a property can hold are named by \<open>fn_ref\<close>.
\<close>

datatype fn_ref = Customer_extendHook | Wishlist_extendHook

datatype add_item_body = AddItemBody (item: json)

datatype 'e hook_closure =
    UseCustomer "(json, 'e) HookFetcher" "obj nullable"
  | UseAddItem "(add_item_body, 'e) HookFetcher"

record 'e function_object =
  closure :: "'e hook_closure"
  properties :: "string \<rightharpoonup> fn_ref"

text \<open>The state of the program: the heap of function objects, and the world outside
  (network and resource cache) that running a promise acts on.\<close>

record ('e, 'w) state =
  heap :: "'e function_object list"
  world :: 'w

definition new_function :: "'e hook_closure \<Rightarrow> ('e, 'w) state \<Rightarrow> nat \<times> ('e, 'w) state" where
  "new_function c s =
     (length (heap s), s\<lparr>heap := heap s @ [\<lparr>closure = c, properties = Map.empty\<rparr>]\<rparr>)"

text \<open>\<open>f.k = v\<close> on the function object at address \<open>a\<close>.\<close>

definition set_property :: "nat \<Rightarrow> string \<Rightarrow> fn_ref \<Rightarrow> ('e, 'w) state \<Rightarrow> ('e, 'w) state" where
  "set_property a k v s =
     s\<lparr>heap := (heap s)[a := (heap s ! a)\<lparr>properties := (properties (heap s ! a))(k \<mapsto> v)\<rparr>]\<rparr>"

text \<open>The body of the closure \<open>useCustomer\<close>. \<open>useCommerceCustomer\<close>
  (\<open>src/use-customer\<close>) is not among the sources and is a parameter.\<close>

definition useCustomer ::
  "(obj \<Rightarrow> (string \<times> json) list \<Rightarrow> (json, 'e) HookFetcher \<Rightarrow> obj \<Rightarrow> 'r)
     \<Rightarrow> (json, 'e) HookFetcher \<Rightarrow> obj nullable \<Rightarrow> 'r" where
  "useCustomer useCommerceCustomer customFetcher swrOptions =
     useCommerceCustomer customer_defaultOpts [] customFetcher
       (spread [''revalidateOnFocus'' \<mapsto> JBool False] swrOptions)"

definition customer_extendHook ::
  "(json, 'e) HookFetcher \<Rightarrow> obj nullable \<Rightarrow> ('e, 'w) state \<Rightarrow> nat \<times> ('e, 'w) state" where
  "customer_extendHook customFetcher swrOptions s =
     (let (useCustomer, s1) = new_function (UseCustomer customFetcher swrOptions) s;
          s2 = set_property useCustomer ''extend'' Customer_extendHook s1
      in (useCustomer, s2))"

text \<open>\<open>export default extendHook(fetcher)\<close>.\<close>

definition customer_default :: "('e, 'w) state \<Rightarrow> nat \<times> ('e, 'w) state" where
  "customer_default s = customer_extendHook customer_fetcher Undefined s"

section \<open>The wishlist hook (\<open>src/example/wishlist/use-add-item.tsx\<close>)\<close>

definition wishlist_defaultOpts :: obj where
  "wishlist_defaultOpts =
     [''url'' \<mapsto> JString ''/api/bigcommerce/wishlist'', ''method'' \<mapsto> JString ''POST'']"

definition wishlist_fetcher :: "(add_item_body, 'e) HookFetcher" where
  "wishlist_fetcher options input fetch =
     fetch ((spread wishlist_defaultOpts options)
              (''body'' \<mapsto> JObject [''item'' \<mapsto> item input]))"

text \<open>The \<open>async function addItem\<close>, with the variables it closes over: \<open>customer\<close>,
  \<open>fn\<close> and \<open>revalidate\<close> (the promise that a call \<open>revalidate()\<close> returns).\<close>

definition addItem ::
  "json \<Rightarrow> (add_item_body \<Rightarrow> 'e promise) \<Rightarrow> 'e promise \<Rightarrow> json \<Rightarrow> 'e promise" where
  "addItem customer fn revalidate input =
     (if \<not> truthy customer
      then Reject (CommerceError ''Signed customer not found'' None None)
      else await (fn (AddItemBody input))
             (\<lambda>data. await revalidate (\<lambda>_. Resolve data)))"

text \<open>The hooks that \<open>useAddItem\<close> calls: \<open>useCustomer\<close> (its \<open>data\<close>),
  \<open>useWishlist\<close> (its \<open>revalidate\<close>) and \<open>useWishlistAddItem\<close>. The last two are not
  among the sources; all three are parameters.\<close>

record 'e wishlist_imports =
  useCustomer_data :: json
  useWishlist_revalidate :: "obj nullable \<Rightarrow> 'e promise"
  useWishlistAddItem :: "obj \<Rightarrow> (add_item_body, 'e) HookFetcher \<Rightarrow> add_item_body \<Rightarrow> 'e promise"

definition useAddItem ::
  "'e wishlist_imports \<Rightarrow> (add_item_body, 'e) HookFetcher \<Rightarrow> obj nullable \<Rightarrow> json \<Rightarrow> 'e promise" where
  "useAddItem imports customFetcher opts =
     (let customer = useCustomer_data imports;
          revalidate = useWishlist_revalidate imports opts;
          fn = useWishlistAddItem imports wishlist_defaultOpts customFetcher
      in addItem customer fn revalidate)"

definition wishlist_extendHook ::
  "(add_item_body, 'e) HookFetcher \<Rightarrow> ('e, 'w) state \<Rightarrow> nat \<times> ('e, 'w) state" where
  "wishlist_extendHook customFetcher s =
     (let (useAddItem, s1) = new_function (UseAddItem customFetcher) s;
          s2 = set_property useAddItem ''extend'' Wishlist_extendHook s1
      in (useAddItem, s2))"

definition wishlist_default :: "('e, 'w) state \<Rightarrow> nat \<times> ('e, 'w) state" where
  "wishlist_default s = wishlist_extendHook wishlist_fetcher s"

section \<open>Calling a hook and its \<open>extend\<close>\<close>

text \<open>\<open>h.extend(customFetcher, swrOptions)\<close> looks the property up on the function
  object at \<open>h\<close> and calls the function it holds; \<open>None\<close> stands for the \<open>TypeError\<close> of
  calling a missing property or a function of the other module.\<close>

definition customer_extend ::
  "nat \<Rightarrow> (json, 'e) HookFetcher \<Rightarrow> obj nullable \<Rightarrow> ('e, 'w) state
     \<Rightarrow> (nat \<times> ('e, 'w) state) option" where
  "customer_extend h customFetcher swrOptions s =
     (if h < length (heap s) then
        (case properties (heap s ! h) ''extend'' of
           Some Customer_extendHook \<Rightarrow> Some (customer_extendHook customFetcher swrOptions s)
         | _ \<Rightarrow> None)
      else None)"

definition wishlist_extend ::
  "nat \<Rightarrow> (add_item_body, 'e) HookFetcher \<Rightarrow> ('e, 'w) state
     \<Rightarrow> (nat \<times> ('e, 'w) state) option" where
  "wishlist_extend h customFetcher s =
     (if h < length (heap s) then
        (case properties (heap s ! h) ''extend'' of
           Some Wishlist_extendHook \<Rightarrow> Some (wishlist_extendHook customFetcher s)
         | _ \<Rightarrow> None)
      else None)"

text \<open>Calling the hook at address \<open>h\<close> runs the body of its closure.\<close>

definition call_customer_hook ::
  "(obj \<Rightarrow> (string \<times> json) list \<Rightarrow> (json, 'e) HookFetcher \<Rightarrow> obj \<Rightarrow> 'r)
     \<Rightarrow> ('e, 'w) state \<Rightarrow> nat \<Rightarrow> 'r option" where
  "call_customer_hook useCommerceCustomer s h =
     (if h < length (heap s) then
        (case closure (heap s ! h) of
           UseCustomer customFetcher swrOptions \<Rightarrow>
             Some (useCustomer useCommerceCustomer customFetcher swrOptions)
         | _ \<Rightarrow> None)
      else None)"

definition call_wishlist_hook ::
  "'e wishlist_imports \<Rightarrow> ('e, 'w) state \<Rightarrow> nat \<Rightarrow> (obj nullable \<Rightarrow> json \<Rightarrow> 'e promise) option" where
  "call_wishlist_hook imports s h =
     (if h < length (heap s) then
        (case closure (heap s ! h) of
           UseAddItem customFetcher \<Rightarrow> Some (useAddItem imports customFetcher)
         | _ \<Rightarrow> None)
      else None)"

text \<open>The customer hook is read through \<open>call_customer_hook\<close>: the cache-policy options
  and the fetcher bound to a hook are what its closure passes to \<open>useCommerceCustomer\<close>.\<close>

definition bound_options :: "('e, 'w) state \<Rightarrow> nat \<Rightarrow> obj option" where
  "bound_options s h = call_customer_hook (\<lambda>options input fetcher swrOptions. swrOptions) s h"

definition bound_fetcher :: "('e, 'w) state \<Rightarrow> nat \<Rightarrow> (json, 'e) HookFetcher option" where
  "bound_fetcher s h = call_customer_hook (\<lambda>options input fetcher swrOptions. fetcher) s h"

section \<open>The hooks of \<open>src/\<close> that the sources import\<close>

text \<open>Modelled from the spec: \<open>useCommerceCustomer\<close> (\<open>src/use-customer\<close>, over
  \<open>src/utils/use-data\<close>) is not among the sources. By the README and the spec the
  fetcher of a read hook receives the hook's options, an object with the input and the
  fetch function set by the provider, and the hook subscribes with the cache-policy
  options it is given. \<open>fetching\<close> is the promise of that call of the fetcher, \<open>policy\<close>
  the cache-policy options.\<close>

record 'e swr_response =
  fetching :: "'e promise"
  policy :: obj

definition useData ::
  "'e fetch_fn \<Rightarrow> obj \<Rightarrow> (string \<times> json) list \<Rightarrow> (json, 'e) HookFetcher \<Rightarrow> obj
     \<Rightarrow> 'e swr_response" where
  "useData fetch options input fetcher swrOptions =
     \<lparr>fetching = fetcher (Val options) (JObject (map_of input)) fetch, policy = swrOptions\<rparr>"

text \<open>Modelled from the spec: \<open>useWishlistAddItem\<close> (\<open>src/wishlist/use-add-item\<close>) is not
  among the sources. The function it returns calls the fetcher with the hook's options,
  the input and the fetch function set by the provider.\<close>

definition useAction ::
  "'e fetch_fn \<Rightarrow> obj \<Rightarrow> ('i, 'e) HookFetcher \<Rightarrow> 'i \<Rightarrow> 'e promise" where
  "useAction fetch options fetcher input = fetcher (Val options) input fetch"

text \<open>The revalidation that \<open>useWishlist\<close> returns, as the host's effect on the key
  \<open>wishlist\<close>.\<close>

definition revalidate_wishlist :: "obj nullable \<Rightarrow> effect promise" where
  "revalidate_wishlist opts = Await (Revalidation ''wishlist'') settle"

subsection \<open>Concrete inputs\<close>

text \<open>A host to run the hooks on: a shop whose server keeps the wishlist and answers a
  wishlist request with the updated wishlist, and whose cache holds the wishlist last
  revalidated.\<close>

record shop =
  server_wishlist :: "json list"
  cached_wishlist :: "json list"

definition signed_customer :: json where
  "signed_customer = JObject [''email'' \<mapsto> JString ''a@b.com'']"

fun shop_host :: "effect \<Rightarrow> shop \<Rightarrow> (commerce_error + json) \<times> shop" where
  "shop_host (Request spec) w =
     (if spec ''url'' = Some (JString ''/api/bigcommerce/wishlist'') then
        (case spec ''body'' of
           Some (JObject b) \<Rightarrow>
             (case b ''item'' of
                Some i \<Rightarrow> (Inr (JArray (server_wishlist w @ [i])),
                           w\<lparr>server_wishlist := server_wishlist w @ [i]\<rparr>)
              | None \<Rightarrow> (Inl (CommerceError ''Bad request'' None (Some 400)), w))
         | _ \<Rightarrow> (Inl (CommerceError ''Bad request'' None (Some 400)), w))
      else if spec ''url'' = Some (JString ''/api/bigcommerce/customers'') then
        (Inr (JObject [''customer'' \<mapsto> signed_customer]), w)
      else (Inl (CommerceError ''Not found'' None (Some 404)), w))"
| "shop_host (Revalidation key) w =
     (if key = ''wishlist'' then (Inr (JBool True), w\<lparr>cached_wishlist := server_wishlist w\<rparr>)
      else (Inr (JBool True), w))"

definition empty_shop :: shop where
  "empty_shop = \<lparr>server_wishlist = [], cached_wishlist = []\<rparr>"

definition shop_imports :: "json \<Rightarrow> effect wishlist_imports" where
  "shop_imports customer =
     \<lparr>useCustomer_data = customer,
      useWishlist_revalidate = revalidate_wishlist,
      useWishlistAddItem = useAction transport\<rparr>"

definition start :: "(effect, shop) state" where
  "start = \<lparr>heap = [], world = empty_shop\<rparr>"

text \<open>Custom fetchers to extend a hook with: one that answers by itself, one that hands
  its options to the raw transport it is given, and the README's, which forward to the
  default fetcher.\<close>

definition constant_fetcher :: "(json, 'e) HookFetcher" where
  "constant_fetcher options input fetch = Resolve (JString ''f1'')"

definition raw_fetcher :: "(json, 'e) HookFetcher" where
  "raw_fetcher options input fetch = fetch (props options)"

definition forward_customer_fetcher :: "(json, 'e) HookFetcher" where
  "forward_customer_fetcher options input fetch = customer_fetcher options input fetch"

definition forward_wishlist_fetcher :: "(add_item_body, 'e) HookFetcher" where
  "forward_wishlist_fetcher options input fetch = wishlist_fetcher options input fetch"


text \<open>A chain of hooks from the default export of the customer module, and what a
  component sees of a hook in the shop: the outcome of the fetch, the transport requests
  made, and the cache-policy options.\<close>

definition default_hook :: "(nat \<times> (effect, shop) state) option" where
  "default_hook = Some (customer_default start)"

definition extend_with ::
  "(nat \<times> (effect, shop) state) option \<Rightarrow> (json, effect) HookFetcher \<Rightarrow> obj nullable
     \<Rightarrow> (nat \<times> (effect, shop) state) option" where
  "extend_with hook customFetcher swrOptions =
     (case hook of None \<Rightarrow> None | Some (h, s) \<Rightarrow> customer_extend h customFetcher swrOptions s)"

definition observe ::
  "(nat \<times> (effect, shop) state) option
     \<Rightarrow> (((commerce_error + json) \<times> shop) \<times> effect list \<times> obj) option" where
  "observe hook =
     (case hook of
        None \<Rightarrow> None
      | Some (h, s) \<Rightarrow>
          map_option
            (\<lambda>r. (run shop_host (fetching r) (world s),
                  performed shop_host (fetching r) (world s),
                  policy r))
            (call_customer_hook (useData transport) s h))"

text \<open>The value of one cache-policy option bound to a hook of the chain.\<close>

definition observed_option ::
  "string \<Rightarrow> (nat \<times> (effect, shop) state) option \<Rightarrow> json option option" where
  "observed_option opt hook =
     (case hook of
        None \<Rightarrow> None
      | Some (h, s) \<Rightarrow> map_option (\<lambda>opts. opts opt) (bound_options s h))"

text \<open>Two extensions in a row, of either module, from an empty heap.\<close>

definition customer_once :: "nat \<times> (effect, shop) state" where
  "customer_once =
     customer_extendHook constant_fetcher (Val [''revalidateOnFocus'' \<mapsto> JBool True]) start"

definition customer_twice :: "nat \<times> (effect, shop) state" where
  "customer_twice = customer_extendHook raw_fetcher Undefined (snd customer_once)"

definition wishlist_once :: "nat \<times> (effect, shop) state" where
  "wishlist_once = wishlist_extendHook forward_wishlist_fetcher start"

definition wishlist_twice :: "nat \<times> (effect, shop) state" where
  "wishlist_twice = wishlist_extendHook wishlist_fetcher (snd wishlist_once)"

section \<open>The resource cache\<close>

text \<open>Modelled from the spec: the resource cache (behind \<open>src/utils/use-data\<close>) is not
  among the sources. The spec gives an entry its data, error, status and subscribers,
  and says of \<open>subscribe\<close>: with no entry, or a stale one, it triggers a fetch; with a fresh
  entry it returns it without fetching; with a fetch in flight for the key the new
  subscriber is enqueued and receives the pending fetch's outcome, and no duplicate
  request is issued. A failed fetch keeps the data cached before. \<open>unsubscribe\<close> releases
  the subscriber and evicts an entry without subscribers, never while its fetch is in
  flight. The cache records the transport calls in flight, every transport call it has
  issued, and what it has delivered to which subscriber.\<close>

text \<open>Modelled from the spec: the status of an entry, \<open>{idle, loading, success,
  failure}\<close>.\<close>

datatype fetch_status = Idle | Loading | Success | Failure

text \<open>Modelled from the spec: a cache entry, with the subscriptions it holds (the
  subscriber count is their number) and whether it is stale per policy.\<close>

record cache_entry =
  entry_data :: "json option"
  entry_error :: "commerce_error option"
  entry_status :: fetch_status
  subscribers :: "nat list"
  stale :: bool

text \<open>Modelled from the spec: the cache, a store from keys to entries, together with the
  transport calls in flight by key, every transport call issued so far, and each outcome
  delivered to a subscriber.\<close>

record resource_cache =
  entries :: "string \<rightharpoonup> cache_entry"
  in_flight :: "string list"
  issued :: "string list"
  delivered :: "(nat \<times> (commerce_error + json)) list"

definition empty_cache :: resource_cache where
  "empty_cache = \<lparr>entries = Map.empty, in_flight = [], issued = [], delivered = []\<rparr>"

definition issue_fetch :: "string \<Rightarrow> resource_cache \<Rightarrow> resource_cache" where
  "issue_fetch key c = c\<lparr>in_flight := key # in_flight c, issued := key # issued c\<rparr>"

definition entry_outcome :: "cache_entry \<Rightarrow> commerce_error + json" where
  "entry_outcome e =
     (case (entry_status e, entry_error e) of
        (Failure, Some err) \<Rightarrow> Inl err
      | _ \<Rightarrow> Inr (case entry_data e of Some v \<Rightarrow> v | None \<Rightarrow> JUndefined))"

text \<open>Modelled from the spec: \<open>subscribe\<close> "registers a subscriber; if no entry exists or
  the entry is stale per policy, triggers a fetch. If an entry exists and is fresh, returns
  it without fetching. If a fetch is already in flight for the key, the new subscriber is
  enqueued and receives the pending fetch's outcome; no duplicate request is issued."\<close>

definition subscribe :: "string \<Rightarrow> nat \<Rightarrow> resource_cache \<Rightarrow> resource_cache" where
  "subscribe key tok c =
     (case entries c key of
        None \<Rightarrow>
          issue_fetch key
            (c\<lparr>entries := (entries c)(key \<mapsto>
                 \<lparr>entry_data = None, entry_error = None, entry_status = Loading,
                  subscribers = [tok], stale = False\<rparr>)\<rparr>)
      | Some e \<Rightarrow>
          if entry_status e = Loading then
            c\<lparr>entries := (entries c)(key \<mapsto> e\<lparr>subscribers := subscribers e @ [tok]\<rparr>)\<rparr>
          else if stale e \<or> entry_status e = Idle then
            issue_fetch key
              (c\<lparr>entries := (entries c)(key \<mapsto>
                   e\<lparr>subscribers := subscribers e @ [tok], entry_status := Loading\<rparr>)\<rparr>)
          else
            c\<lparr>entries := (entries c)(key \<mapsto> e\<lparr>subscribers := subscribers e @ [tok]\<rparr>),
              delivered := delivered c @ [(tok, entry_outcome e)]\<rparr>)"

text \<open>Modelled from the spec: \<open>unsubscribe\<close> releases the subscription (no update is
  delivered to it afterwards) and evicts the entry when no subscriber is left, though
  "never while a revalidation is in flight".\<close>

definition unsubscribe :: "string \<Rightarrow> nat \<Rightarrow> resource_cache \<Rightarrow> resource_cache" where
  "unsubscribe key tok c =
     (case entries c key of
        None \<Rightarrow> c
      | Some e \<Rightarrow>
          (let subs = remove1 tok (subscribers e) in
           if subs = [] \<and> entry_status e \<noteq> Loading
           then c\<lparr>entries := (entries c)(key := None)\<rparr>
           else c\<lparr>entries := (entries c)(key \<mapsto> e\<lparr>subscribers := subs\<rparr>)\<rparr>))"

text \<open>Modelled from the spec: a successful fetch stores the data and clears the error; "a
  failed fetch transitions the entry to failure with the error populated; it does not
  clear previously cached data".\<close>

definition apply_outcome :: "commerce_error + json \<Rightarrow> cache_entry \<Rightarrow> cache_entry" where
  "apply_outcome r e =
     (case r of
        Inr v \<Rightarrow> e\<lparr>entry_data := Some v, entry_error := None, entry_status := Success,
                   stale := False\<rparr>
      | Inl err \<Rightarrow> e\<lparr>entry_error := Some err, entry_status := Failure, stale := False\<rparr>)"

text \<open>Modelled from the spec: the fetch in flight for \<open>key\<close> settles with \<open>r\<close>; the entry
  is updated and every subscriber of the key receives that outcome.\<close>

definition settle_fetch :: "string \<Rightarrow> commerce_error + json \<Rightarrow> resource_cache \<Rightarrow> resource_cache" where
  "settle_fetch key r c =
     (if key \<in> set (in_flight c) then
        (case entries c key of
           None \<Rightarrow> c\<lparr>in_flight := remove1 key (in_flight c)\<rparr>
         | Some e \<Rightarrow>
             c\<lparr>entries := (entries c)(key \<mapsto> apply_outcome r e),
               in_flight := remove1 key (in_flight c),
               delivered := delivered c @ map (\<lambda>tok. (tok, r)) (subscribers e)\<rparr>)
      else c)"

text \<open>Modelled from the spec: the scheduling is "single-threaded cooperative", so a run of
  the cache is a sequence of events, the calls and the completions in the order they
  happen.\<close>

datatype cache_event =
    Subscribe string nat
  | Unsubscribe string nat
  | Settle string "commerce_error + json"

fun event_key :: "cache_event \<Rightarrow> string" where
  "event_key (Subscribe key tok) = key"
| "event_key (Unsubscribe key tok) = key"
| "event_key (Settle key r) = key"

fun cache_step :: "resource_cache \<Rightarrow> cache_event \<Rightarrow> resource_cache" where
  "cache_step c (Subscribe key tok) = subscribe key tok c"
| "cache_step c (Unsubscribe key tok) = unsubscribe key tok c"
| "cache_step c (Settle key r) = settle_fetch key r c"

definition run_events :: "cache_event list \<Rightarrow> resource_cache \<Rightarrow> resource_cache" where
  "run_events evs c = foldl cache_step c evs"

text \<open>The subscribers that the events \<open>evs\<close> subscribe to \<open>key\<close>, in order.\<close>

fun subscribed :: "string \<Rightarrow> cache_event list \<Rightarrow> nat list" where
  "subscribed key [] = []"
| "subscribed key (Subscribe k tok # evs) =
     (if k = key then tok # subscribed key evs else subscribed key evs)"
| "subscribed key (ev # evs) = subscribed key evs"

text \<open>Every event of \<open>evs\<close> on \<open>key\<close> is a \<open>subscribe\<close>.\<close>

fun only_subscribes :: "string \<Rightarrow> cache_event list \<Rightarrow> bool" where
  "only_subscribes key [] = True"
| "only_subscribes key (Subscribe k tok # evs) = only_subscribes key evs"
| "only_subscribes key (ev # evs) = (event_key ev \<noteq> key \<and> only_subscribes key evs)"

text \<open>What holds of a cache between events: a key is in flight at most once, and only
  for an entry that is loading.\<close>

definition loading_at :: "resource_cache \<Rightarrow> string \<Rightarrow> bool" where
  "loading_at c k =
     (case entries c k of None \<Rightarrow> False | Some e \<Rightarrow> entry_status e = Loading)"

definition cache_inv :: "resource_cache \<Rightarrow> bool" where
  "cache_inv c \<longleftrightarrow> distinct (in_flight c) \<and> list_all (loading_at c) (in_flight c)"


section \<open>Promises\<close>

lemma run_await:
  "run h (await p k) w =
     (case run h p w of (Inl e, w1) \<Rightarrow> (Inl e, w1) | (Inr v, w1) \<Rightarrow> run h (k v) w1)"
  by (induction p arbitrary: w) (auto split: prod.splits sum.splits)

lemma performed_await:
  "performed h (await p k) w =
     performed h p w @
     (case run h p w of (Inl e, w1) \<Rightarrow> [] | (Inr v, w1) \<Rightarrow> performed h (k v) w1)"
  by (induction p arbitrary: w) (auto split: prod.splits sum.splits)

lemma run_settle: "run h (settle r) w = (r, w)"
  by (cases r) (simp_all add: settle_def)

lemma performed_settle: "performed h (settle r) w = []"
  by (cases r) (simp_all add: settle_def)

lemma run_transport: "run h (transport spec) w = h (Request spec) w"
  by (simp add: transport_def run_settle split: prod.splits)

lemma performed_transport: "performed h (transport spec) w = [Request spec]"
  by (simp add: transport_def performed_settle split: prod.splits)

lemma spread_field:
  "spread a b k = (case props b k of Some v \<Rightarrow> Some v | None \<Rightarrow> a k)"
  by (simp add: spread_def map_add_def)

section \<open>The wishlist mutation\<close>

lemma addItem_success_iff:
  "run h (addItem customer fn revalidate input) w = (Inr v, w') \<longleftrightarrow>
     truthy customer \<and>
     (\<exists>w1 r. run h (fn (AddItemBody input)) w = (Inr v, w1)
            \<and> run h revalidate w1 = (Inr r, w'))"
  by (auto simp add: addItem_def run_await split: prod.splits sum.splits)

lemma shop_addItem:
  "run shop_host
     (useAddItem (shop_imports signed_customer) wishlist_fetcher Undefined (JString ''sku''))
     empty_shop
   = (Inr (JArray [JString ''sku'']),
      \<lparr>server_wishlist = [JString ''sku''], cached_wishlist = [JString ''sku'']\<rparr>)"
  by (simp add: useAddItem_def addItem_def shop_imports_def signed_customer_def useAction_def
      wishlist_fetcher_def run_await run_transport revalidate_wishlist_def run_settle spread_def
      wishlist_defaultOpts_def empty_shop_def)

text \<open>
  C1. Without a signed customer (\<open>customer\<close> is \<open>null\<close>, \<open>undefined\<close> or otherwise falsy)
  \<open>addItem\<close> is rejected with the \<open>CommerceError\<close> of message "Signed customer not
  found". The promise is rejected as it is made, before any suspension: whatever the
  fetcher, \<open>useWishlistAddItem\<close> and \<open>revalidate\<close> are, running it performs no effect (no
  transport request, no revalidation) and leaves the world as it was.
\<close>

theorem addItem_requires_signed_customer:
  assumes "\<not> truthy (useCustomer_data imports)"
  shows "useAddItem imports customFetcher opts input =
           Reject (CommerceError ''Signed customer not found'' None None)
       \<and> message (CommerceError ''Signed customer not found'' None None) =
           ''Signed customer not found''
       \<and> run h (useAddItem imports customFetcher opts input) w =
           (Inl (CommerceError ''Signed customer not found'' None None), w)
       \<and> performed h (useAddItem imports customFetcher opts input) w = []"
  using assms by (simp add: useAddItem_def addItem_def)

theorem addItem_requires_signed_customer_witness:
  "\<not> truthy (useCustomer_data (shop_imports JNull))
   \<and> useAddItem (shop_imports JNull) wishlist_fetcher Undefined (JString ''sku'') =
       Reject (CommerceError ''Signed customer not found'' None None)
   \<and> run shop_host (useAddItem (shop_imports JNull) wishlist_fetcher Undefined (JString ''sku''))
       empty_shop = (Inl (CommerceError ''Signed customer not found'' None None), empty_shop)
   \<and> performed shop_host
       (useAddItem (shop_imports JNull) wishlist_fetcher Undefined (JString ''sku''))
       empty_shop = []"
proof -
  have h: "\<not> truthy (useCustomer_data (shop_imports JNull))"
    by (simp add: shop_imports_def)
  from addItem_requires_signed_customer [OF h, of wishlist_fetcher Undefined "JString ''sku''"
      shop_host empty_shop] h
  show ?thesis by simp
qed

text \<open>
  C4. When \<open>addItem\<close> resolves, the function of \<open>useWishlistAddItem\<close> has resolved with the
  value and, in the world it left, the revalidation of \<open>useWishlist\<close> has run to its
  successful completion: the world in which \<open>addItem\<close> resolves is the world that the
  completed revalidation left, and every effect of the revalidation has been performed.
\<close>

theorem addItem_awaits_revalidation:
  assumes "run h (useAddItem imports customFetcher opts input) w = (Inr v, w')"
  shows "\<exists>w1 r.
           run h (useWishlistAddItem imports wishlist_defaultOpts customFetcher
                    (AddItemBody input)) w = (Inr v, w1)
         \<and> run h (useWishlist_revalidate imports opts) w1 = (Inr r, w')
         \<and> performed h (useAddItem imports customFetcher opts input) w =
             performed h (useWishlistAddItem imports wishlist_defaultOpts customFetcher
                            (AddItemBody input)) w
             @ performed h (useWishlist_revalidate imports opts) w1"
  using assms
  by (auto simp add: useAddItem_def addItem_def run_await performed_await
      split: if_splits prod.splits sum.splits)

theorem addItem_awaits_revalidation_witness:
  "run shop_host
     (useAddItem (shop_imports signed_customer) wishlist_fetcher Undefined (JString ''sku''))
     empty_shop
   = (Inr (JArray [JString ''sku'']),
      \<lparr>server_wishlist = [JString ''sku''], cached_wishlist = [JString ''sku'']\<rparr>)
   \<and> (\<exists>w1 r.
        run shop_host (useWishlist_revalidate (shop_imports signed_customer) Undefined) w1
          = (Inr r, \<lparr>server_wishlist = [JString ''sku''], cached_wishlist = [JString ''sku'']\<rparr>))"
proof -
  note h = shop_addItem
  from addItem_awaits_revalidation [OF h] h show ?thesis by blast
qed

text \<open>
  C10. \<open>addItem\<close> resolves with the value \<open>v\<close> exactly when the customer is signed in,
  the function of \<open>useWishlistAddItem\<close> resolves with \<open>v\<close> for \<open>{item: input}\<close>, and the
  revalidation of \<open>useWishlist\<close>, run in the world that function left, resolves: the value
  of the fetcher is passed through unchanged, after the awaited revalidation, in the world
  the revalidation left. So for every signed customer and every item a call whose fetch
  and revalidation succeed does resolve, with the fetched value and no other.
\<close>

theorem addItem_resolves_with_fetched_data:
  "run h (useAddItem imports customFetcher opts input) w = (Inr v, w') \<longleftrightarrow>
     truthy (useCustomer_data imports)
   \<and> (\<exists>w1 r.
        run h (useWishlistAddItem imports wishlist_defaultOpts customFetcher
                 (AddItemBody input)) w = (Inr v, w1)
      \<and> run h (useWishlist_revalidate imports opts) w1 = (Inr r, w'))"
  by (simp add: useAddItem_def addItem_success_iff)

theorem addItem_resolves_with_fetched_data_witness:
  "truthy (useCustomer_data (shop_imports signed_customer))
   \<and> run shop_host
        (useWishlistAddItem (shop_imports signed_customer) wishlist_defaultOpts
           wishlist_fetcher (AddItemBody (JString ''sku''))) empty_shop
      = (Inr (JArray [JString ''sku'']),
         \<lparr>server_wishlist = [JString ''sku''], cached_wishlist = []\<rparr>)
   \<and> run shop_host (useWishlist_revalidate (shop_imports signed_customer) Undefined)
        \<lparr>server_wishlist = [JString ''sku''], cached_wishlist = []\<rparr>
      = (Inr (JBool True),
         \<lparr>server_wishlist = [JString ''sku''], cached_wishlist = [JString ''sku'']\<rparr>)
   \<and> run shop_host
        (useAddItem (shop_imports signed_customer) wishlist_fetcher Undefined (JString ''sku''))
        empty_shop
      = (Inr (JArray [JString ''sku'']),
         \<lparr>server_wishlist = [JString ''sku''], cached_wishlist = [JString ''sku'']\<rparr>)"
proof -
  have signed: "truthy (useCustomer_data (shop_imports signed_customer))"
    by (simp add: shop_imports_def signed_customer_def)
  have fetched: "run shop_host
        (useWishlistAddItem (shop_imports signed_customer) wishlist_defaultOpts
           wishlist_fetcher (AddItemBody (JString ''sku''))) empty_shop
      = (Inr (JArray [JString ''sku'']),
         \<lparr>server_wishlist = [JString ''sku''], cached_wishlist = []\<rparr>)"
    by (simp add: shop_imports_def useAction_def wishlist_fetcher_def run_transport spread_def
        wishlist_defaultOpts_def empty_shop_def)
  have revalidated: "run shop_host (useWishlist_revalidate (shop_imports signed_customer) Undefined)
        \<lparr>server_wishlist = [JString ''sku''], cached_wishlist = []\<rparr>
      = (Inr (JBool True),
         \<lparr>server_wishlist = [JString ''sku''], cached_wishlist = [JString ''sku'']\<rparr>)"
    by (simp add: shop_imports_def revalidate_wishlist_def run_settle)
  from signed fetched revalidated have
    "truthy (useCustomer_data (shop_imports signed_customer))
     \<and> (\<exists>w1 r.
          run shop_host
            (useWishlistAddItem (shop_imports signed_customer) wishlist_defaultOpts
               wishlist_fetcher (AddItemBody (JString ''sku''))) empty_shop
            = (Inr (JArray [JString ''sku'']), w1)
        \<and> run shop_host (useWishlist_revalidate (shop_imports signed_customer) Undefined) w1
            = (Inr r, \<lparr>server_wishlist = [JString ''sku''],
                        cached_wishlist = [JString ''sku'']\<rparr>))"
    by blast
  then have "run shop_host
        (useAddItem (shop_imports signed_customer) wishlist_fetcher Undefined (JString ''sku''))
        empty_shop
      = (Inr (JArray [JString ''sku'']),
         \<lparr>server_wishlist = [JString ''sku''], cached_wishlist = [JString ''sku'']\<rparr>)"
    by (rule addItem_resolves_with_fetched_data [THEN iffD2])
  with signed fetched revalidated show ?thesis
    by blast
qed

section \<open>The fetchers\<close>

text \<open>
  C9. When the transport resolves with a body, the customer fetcher resolves, in the same
  world, with the body's \<open>customer\<close> if the body is an object that has one other than
  \<open>null\<close> and \<open>undefined\<close>, and with \<open>null\<close> for every other body (\<open>null\<close>, \<open>undefined\<close>,
  no \<open>customer\<close>); never with \<open>undefined\<close>.
\<close>

theorem customer_fetcher_customer_or_null:
  assumes "run h (fetch (spread customer_defaultOpts options)) w = (Inr body, w1)"
  shows "\<exists>c. run h (customer_fetcher options input fetch) w = (Inr c, w1)
       \<and> c \<noteq> JUndefined
       \<and> c = (case body of
                JObject m \<Rightarrow>
                  (case m ''customer'' of
                     None \<Rightarrow> JNull
                   | Some v \<Rightarrow> if v = JUndefined \<or> v = JNull then JNull else v)
              | _ \<Rightarrow> JNull)"
proof -
  let ?c = "nullish_coalesce (optional_customer body) JNull"
  have "run h (customer_fetcher options input fetch) w = (Inr ?c, w1)"
    using assms by (simp add: customer_fetcher_def run_await)
  moreover have "?c \<noteq> JUndefined"
    by (cases "optional_customer body") simp_all
  moreover have "?c = (case body of
                JObject m \<Rightarrow>
                  (case m ''customer'' of
                     None \<Rightarrow> JNull
                   | Some v \<Rightarrow> if v = JUndefined \<or> v = JNull then JNull else v)
              | _ \<Rightarrow> JNull)"
  proof (cases body)
    case (JObject m)
    show ?thesis
    proof (cases "m ''customer''")
      case None
      with JObject show ?thesis by simp
    next
      case (Some v)
      with JObject show ?thesis by (cases v) simp_all
    qed
  qed simp_all
  ultimately show ?thesis by blast
qed

theorem customer_fetcher_customer_or_null_witness:
  "run shop_host (transport (spread customer_defaultOpts Null)) empty_shop
     = (Inr (JObject [''customer'' \<mapsto> signed_customer]), empty_shop)
   \<and> run shop_host (customer_fetcher Null JNull transport) empty_shop
     = (Inr signed_customer, empty_shop)"
proof -
  have h: "run shop_host (transport (spread customer_defaultOpts Null)) empty_shop
     = (Inr (JObject [''customer'' \<mapsto> signed_customer]), empty_shop)"
    by (simp add: run_transport spread_def customer_defaultOpts_def)
  from customer_fetcher_customer_or_null
      [where fetch = transport and options = Null and input = JNull, OF h] h
  show ?thesis
    by (auto simp add: signed_customer_def)
qed


text \<open>
  C5, as the code has it. Each fetcher makes one transport request. The customer fetcher
  passes the shallow merge of its default options and the caller's options: a field of
  the caller's options has the caller's value, any other field the default's. The wishlist
  fetcher passes that merge with the field \<open>body\<close> then set to \<open>{item}\<close> from the input:
  every field of the caller's options other than \<open>body\<close> has the caller's value, and a
  \<open>body\<close> among the caller's options is replaced. No further layer of defaults takes
  part.
\<close>

theorem fetcher_request_spec:
  "performed h (customer_fetcher options input transport) w =
     [Request (spread customer_defaultOpts options)]
   \<and> performed h (wishlist_fetcher options item_body transport) w =
     [Request ((spread wishlist_defaultOpts options)
                 (''body'' \<mapsto> JObject [''item'' \<mapsto> item item_body]))]
   \<and> (props options field = Some v \<longrightarrow>
         spread customer_defaultOpts options field = Some v
       \<and> (field \<noteq> ''body'' \<longrightarrow>
            ((spread wishlist_defaultOpts options)
               (''body'' \<mapsto> JObject [''item'' \<mapsto> item item_body])) field = Some v))
   \<and> (props options field = None \<longrightarrow>
         spread customer_defaultOpts options field = customer_defaultOpts field
       \<and> (field \<noteq> ''body'' \<longrightarrow>
            ((spread wishlist_defaultOpts options)
               (''body'' \<mapsto> JObject [''item'' \<mapsto> item item_body])) field
              = wishlist_defaultOpts field))
   \<and> ((spread wishlist_defaultOpts options)
         (''body'' \<mapsto> JObject [''item'' \<mapsto> item item_body])) ''body''
       = Some (JObject [''item'' \<mapsto> item item_body])"
  by (simp add: customer_fetcher_def wishlist_fetcher_def performed_await performed_transport
      spread_field split: prod.splits sum.splits)

theorem fetcher_request_spec_witness:
  "props (Val [''url'' \<mapsto> JString ''/custom'']) ''url'' = Some (JString ''/custom'')
   \<and> props (Val [''url'' \<mapsto> JString ''/custom'']) ''method'' = None
   \<and> ''url'' \<noteq> ''body'' \<and> ''method'' \<noteq> ''body''
   \<and> performed shop_host
        (customer_fetcher (Val [''url'' \<mapsto> JString ''/custom'']) JNull transport) empty_shop
      = [Request (spread customer_defaultOpts (Val [''url'' \<mapsto> JString ''/custom'']))]
   \<and> spread customer_defaultOpts (Val [''url'' \<mapsto> JString ''/custom'']) ''url''
      = Some (JString ''/custom'')
   \<and> spread customer_defaultOpts (Val [''url'' \<mapsto> JString ''/custom'']) ''method''
      = Some (JString ''GET'')
   \<and> ((spread wishlist_defaultOpts (Val [''url'' \<mapsto> JString ''/custom'']))
         (''body'' \<mapsto> JObject [''item'' \<mapsto> item (AddItemBody (JString ''sku''))])) ''url''
      = Some (JString ''/custom'')
   \<and> ((spread wishlist_defaultOpts (Val [''url'' \<mapsto> JString ''/custom'']))
         (''body'' \<mapsto> JObject [''item'' \<mapsto> item (AddItemBody (JString ''sku''))])) ''method''
      = Some (JString ''POST'')"
proof -
  have given_field: "props (Val [''url'' \<mapsto> JString ''/custom'']) ''url'' = Some (JString ''/custom'')"
    and absent: "props (Val [''url'' \<mapsto> JString ''/custom'']) ''method'' = None"
    and other: "''url'' \<noteq> ''body''" "''method'' \<noteq> ''body''"
    by simp_all
  note at_url = fetcher_request_spec
    [where options = "Val [''url'' \<mapsto> JString ''/custom'']" and field = "''url''"
       and v = "JString ''/custom''" and item_body = "AddItemBody (JString ''sku'')"
       and h = shop_host and w = empty_shop and input = JNull]
  note at_method = fetcher_request_spec
    [where options = "Val [''url'' \<mapsto> JString ''/custom'']" and field = "''method''"
       and v = JNull and item_body = "AddItemBody (JString ''sku'')"
       and h = shop_host and w = empty_shop and input = JNull]
  from at_url given_field other have url:
    "performed shop_host
        (customer_fetcher (Val [''url'' \<mapsto> JString ''/custom'']) JNull transport) empty_shop
      = [Request (spread customer_defaultOpts (Val [''url'' \<mapsto> JString ''/custom'']))]
     \<and> spread customer_defaultOpts (Val [''url'' \<mapsto> JString ''/custom'']) ''url''
      = Some (JString ''/custom'')
     \<and> ((spread wishlist_defaultOpts (Val [''url'' \<mapsto> JString ''/custom'']))
         (''body'' \<mapsto> JObject [''item'' \<mapsto> item (AddItemBody (JString ''sku''))])) ''url''
      = Some (JString ''/custom'')"
    by blast
  from at_method absent other have method_field:
    "spread customer_defaultOpts (Val [''url'' \<mapsto> JString ''/custom'']) ''method''
      = customer_defaultOpts ''method''
     \<and> ((spread wishlist_defaultOpts (Val [''url'' \<mapsto> JString ''/custom'']))
         (''body'' \<mapsto> JObject [''item'' \<mapsto> item (AddItemBody (JString ''sku''))])) ''method''
      = wishlist_defaultOpts ''method''"
    by blast
  have "customer_defaultOpts ''method'' = Some (JString ''GET'')"
    "wishlist_defaultOpts ''method'' = Some (JString ''POST'')"
    by (simp_all add: customer_defaultOpts_def wishlist_defaultOpts_def)
  with url method_field given_field absent other show ?thesis
    by simp
qed

text \<open>
  C5 as stated fails on the wishlist fetcher: with the caller's options
  \<open>{url: "/custom", body: "mine"}\<close> and the item \<open>"sku"\<close>, the request spec passed to the
  transport is not the merge of the default options and the caller's options (its \<open>body\<close>
  is \<open>{item: "sku"}\<close>, not the caller's).
\<close>

theorem wishlist_fetcher_body_counterexample:
  "performed shop_host
     (wishlist_fetcher (Val [''url'' \<mapsto> JString ''/custom'', ''body'' \<mapsto> JString ''mine''])
        (AddItemBody (JString ''sku'')) transport) empty_shop
   \<noteq> [Request (spread wishlist_defaultOpts
                  (Val [''url'' \<mapsto> JString ''/custom'', ''body'' \<mapsto> JString ''mine'']))]"
proof
  assume "performed shop_host
     (wishlist_fetcher (Val [''url'' \<mapsto> JString ''/custom'', ''body'' \<mapsto> JString ''mine''])
        (AddItemBody (JString ''sku'')) transport) empty_shop
   = [Request (spread wishlist_defaultOpts
                  (Val [''url'' \<mapsto> JString ''/custom'', ''body'' \<mapsto> JString ''mine'']))]"
  then have "(spread wishlist_defaultOpts
                (Val [''url'' \<mapsto> JString ''/custom'', ''body'' \<mapsto> JString ''mine'']))
                (''body'' \<mapsto> JObject [''item'' \<mapsto> JString ''sku''])
           = spread wishlist_defaultOpts
               (Val [''url'' \<mapsto> JString ''/custom'', ''body'' \<mapsto> JString ''mine''])"
    by (simp add: wishlist_fetcher_def performed_transport)
  then have "((spread wishlist_defaultOpts
                (Val [''url'' \<mapsto> JString ''/custom'', ''body'' \<mapsto> JString ''mine'']))
                (''body'' \<mapsto> JObject [''item'' \<mapsto> JString ''sku''])) ''body''
           = spread wishlist_defaultOpts
               (Val [''url'' \<mapsto> JString ''/custom'', ''body'' \<mapsto> JString ''mine'']) ''body''"
    by (rule arg_cong)
  then show False by (simp add: spread_field)
qed


section \<open>Extending a hook\<close>

lemma customer_extendHook_eq:
  "customer_extendHook f opt s =
     (length (heap s),
      s\<lparr>heap := heap s @ [\<lparr>closure = UseCustomer f opt,
                            properties = [''extend'' \<mapsto> Customer_extendHook]\<rparr>]\<rparr>)"
  by (simp add: customer_extendHook_def new_function_def set_property_def)

lemma wishlist_extendHook_eq:
  "wishlist_extendHook f s =
     (length (heap s),
      s\<lparr>heap := heap s @ [\<lparr>closure = UseAddItem f,
                            properties = [''extend'' \<mapsto> Wishlist_extendHook]\<rparr>]\<rparr>)"
  by (simp add: wishlist_extendHook_def new_function_def set_property_def)

lemma customer_extendHook_frame:
  assumes "customer_extendHook f opt s = (h', s')"
  shows "h' = length (heap s)"
    and "heap s' = heap s @ [\<lparr>closure = UseCustomer f opt,
                             properties = [''extend'' \<mapsto> Customer_extendHook]\<rparr>]"
    and "world s' = world s"
  using assms by (auto simp add: customer_extendHook_eq)

lemma wishlist_extendHook_frame:
  assumes "wishlist_extendHook f s = (h', s')"
  shows "h' = length (heap s)"
    and "heap s' = heap s @ [\<lparr>closure = UseAddItem f,
                             properties = [''extend'' \<mapsto> Wishlist_extendHook]\<rparr>]"
    and "world s' = world s"
  using assms by (auto simp add: wishlist_extendHook_eq)

lemma customer_extend_after_extendHook:
  "customer_extendHook f1 o1 s = (h1, s1) \<Longrightarrow>
   customer_extend h1 f2 o2 s1 = Some (customer_extendHook f2 o2 s1)"
  by (auto simp add: customer_extendHook_eq customer_extend_def)

lemma wishlist_extend_after_extendHook:
  "wishlist_extendHook f1 s = (h1, s1) \<Longrightarrow>
   wishlist_extend h1 f2 s1 = Some (wishlist_extendHook f2 s1)"
  by (auto simp add: wishlist_extendHook_eq wishlist_extend_def)

lemma customer_extend_Some:
  "customer_extend h f opt s = Some (h', s') \<Longrightarrow>
     customer_extendHook f opt s = (h', s') \<and> h < length (heap s)"
  by (auto simp add: customer_extend_def split: if_splits option.splits fn_ref.splits)

lemma wishlist_extend_Some:
  "wishlist_extend h f s = Some (h', s') \<Longrightarrow>
     wishlist_extendHook f s = (h', s') \<and> h < length (heap s)"
  by (auto simp add: wishlist_extend_def split: if_splits option.splits fn_ref.splits)

lemma call_customer_hook_new:
  "customer_extendHook f opt s = (h, s') \<Longrightarrow>
   call_customer_hook useC s' h = Some (useCustomer useC f opt)"
  by (auto simp add: customer_extendHook_eq call_customer_hook_def)

lemma call_wishlist_hook_new:
  "wishlist_extendHook f s = (h, s') \<Longrightarrow>
   call_wishlist_hook imports s' h = Some (useAddItem imports f)"
  by (auto simp add: wishlist_extendHook_eq call_wishlist_hook_def)

lemma call_customer_hook_closure:
  "h < length (heap s) \<Longrightarrow> closure (heap s ! h) = UseCustomer f swr \<Longrightarrow>
   call_customer_hook useC s h = Some (useCustomer useC f swr)"
  by (simp add: call_customer_hook_def)

lemma call_wishlist_hook_closure:
  "h < length (heap s) \<Longrightarrow> closure (heap s ! h) = UseAddItem f \<Longrightarrow>
   call_wishlist_hook imports s h = Some (useAddItem imports f)"
  by (simp add: call_wishlist_hook_def)

lemma forward_customer_fetcher_eq: "forward_customer_fetcher = customer_fetcher"
  by (rule ext)+ (simp add: forward_customer_fetcher_def)

lemma forward_wishlist_fetcher_eq: "forward_wishlist_fetcher = wishlist_fetcher"
  by (rule ext)+ (simp add: forward_wishlist_fetcher_def)

lemma useCustomer_no_options:
  "props swr = Map.empty \<Longrightarrow> useCustomer useC f swr = useCustomer useC f Undefined"
  by (simp add: useCustomer_def spread_def)

lemma shop_customer_request:
  "run shop_host (transport (spread customer_defaultOpts (Val customer_defaultOpts))) w
     = (Inr (JObject [''customer'' \<mapsto> signed_customer]), w)"
  by (simp add: run_transport customer_defaultOpts_def spread_def)

text \<open>
  C2, as the code has it. \<open>extend\<close> on a hook made with the custom fetcher \<open>f1\<close> is the
  module's \<open>extendHook\<close> again: the hook it returns is the one that \<open>extendHook\<close> makes
  from the new fetcher alone. Its closure holds \<open>f2\<close> and not \<open>f1\<close>; called, it hands
  \<open>f2\<close> to \<open>useCommerceCustomer\<close> (or \<open>useWishlistAddItem\<close>), so the third argument that
  \<open>f2\<close> receives is whatever that hook supplies, and \<open>f1\<close> is discarded.
\<close>

theorem extend_binds_new_fetcher_only:
  "(customer_extendHook f1 o1 s = (h1, s1) \<and> customer_extend h1 f2 o2 s1 = Some (h2, s2) \<longrightarrow>
      customer_extendHook f2 o2 s1 = (h2, s2)
    \<and> closure (heap s2 ! h2) = UseCustomer f2 o2
    \<and> bound_fetcher s2 h2 = Some f2
    \<and> call_customer_hook useCommerceCustomer s2 h2 =
        Some (useCommerceCustomer customer_defaultOpts [] f2
               (spread [''revalidateOnFocus'' \<mapsto> JBool False] o2)))
 \<and> (wishlist_extendHook g1 t = (k1, t1) \<and> wishlist_extend k1 g2 t1 = Some (k2, t2) \<longrightarrow>
      wishlist_extendHook g2 t1 = (k2, t2)
    \<and> closure (heap t2 ! k2) = UseAddItem g2
    \<and> call_wishlist_hook imports t2 k2 =
        Some (\<lambda>opts. addItem (useCustomer_data imports)
                       (useWishlistAddItem imports wishlist_defaultOpts g2)
                       (useWishlist_revalidate imports opts)))"
proof (intro conjI impI)
  assume "customer_extendHook f1 o1 s = (h1, s1) \<and> customer_extend h1 f2 o2 s1 = Some (h2, s2)"
  then show e: "customer_extendHook f2 o2 s1 = (h2, s2)"
    by (auto dest: customer_extend_Some)
  then show "closure (heap s2 ! h2) = UseCustomer f2 o2"
    by (auto simp add: customer_extendHook_eq)
  from e show "bound_fetcher s2 h2 = Some f2"
    by (simp add: bound_fetcher_def call_customer_hook_new useCustomer_def)
  from e show "call_customer_hook useCommerceCustomer s2 h2 =
        Some (useCommerceCustomer customer_defaultOpts [] f2
               (spread [''revalidateOnFocus'' \<mapsto> JBool False] o2))"
    by (simp add: call_customer_hook_new useCustomer_def)
next
  assume "wishlist_extendHook g1 t = (k1, t1) \<and> wishlist_extend k1 g2 t1 = Some (k2, t2)"
  then show e: "wishlist_extendHook g2 t1 = (k2, t2)"
    by (auto dest: wishlist_extend_Some)
  then show "closure (heap t2 ! k2) = UseAddItem g2"
    by (auto simp add: wishlist_extendHook_eq)
  from e have "call_wishlist_hook imports t2 k2 = Some (useAddItem imports g2)"
    by (rule call_wishlist_hook_new)
  moreover have "useAddItem imports g2 =
      (\<lambda>opts. addItem (useCustomer_data imports)
                (useWishlistAddItem imports wishlist_defaultOpts g2)
                (useWishlist_revalidate imports opts))"
    by (rule ext) (simp add: useAddItem_def)
  ultimately show "call_wishlist_hook imports t2 k2 =
        Some (\<lambda>opts. addItem (useCustomer_data imports)
                       (useWishlistAddItem imports wishlist_defaultOpts g2)
                       (useWishlist_revalidate imports opts))"
    by simp
qed

theorem extend_binds_new_fetcher_only_witness:
  "customer_extendHook constant_fetcher (Val [''revalidateOnFocus'' \<mapsto> JBool True]) start
     = (fst customer_once, snd customer_once)
   \<and> customer_extend (fst customer_once) raw_fetcher Undefined (snd customer_once)
     = Some (fst customer_twice, snd customer_twice)
   \<and> closure (heap (snd customer_twice) ! fst customer_twice) = UseCustomer raw_fetcher Undefined
   \<and> bound_fetcher (snd customer_twice) (fst customer_twice) = Some raw_fetcher
   \<and> wishlist_extendHook forward_wishlist_fetcher start = (fst wishlist_once, snd wishlist_once)
   \<and> wishlist_extend (fst wishlist_once) wishlist_fetcher (snd wishlist_once)
     = Some (fst wishlist_twice, snd wishlist_twice)
   \<and> closure (heap (snd wishlist_twice) ! fst wishlist_twice) = UseAddItem wishlist_fetcher"
proof -
  have c: "customer_extendHook constant_fetcher (Val [''revalidateOnFocus'' \<mapsto> JBool True]) start
             = (fst customer_once, snd customer_once)
         \<and> customer_extend (fst customer_once) raw_fetcher Undefined (snd customer_once)
             = Some (fst customer_twice, snd customer_twice)"
    by (simp add: customer_once_def customer_twice_def customer_extendHook_eq
        customer_extend_def start_def)
  have w: "wishlist_extendHook forward_wishlist_fetcher start = (fst wishlist_once, snd wishlist_once)
         \<and> wishlist_extend (fst wishlist_once) wishlist_fetcher (snd wishlist_once)
             = Some (fst wishlist_twice, snd wishlist_twice)"
    by (simp add: wishlist_once_def wishlist_twice_def wishlist_extendHook_eq
        wishlist_extend_def start_def)
  from extend_binds_new_fetcher_only
    [where ?f1.0 = constant_fetcher and ?o1.0 = "Val [''revalidateOnFocus'' \<mapsto> JBool True]"
       and s = start and ?h1.0 = "fst customer_once" and ?s1.0 = "snd customer_once"
       and ?f2.0 = raw_fetcher and ?o2.0 = Undefined
       and ?h2.0 = "fst customer_twice" and ?s2.0 = "snd customer_twice"
       and ?g1.0 = forward_wishlist_fetcher and t = start
       and ?k1.0 = "fst wishlist_once" and ?t1.0 = "snd wishlist_once"
       and ?g2.0 = wishlist_fetcher
       and ?k2.0 = "fst wishlist_twice" and ?t2.0 = "snd wishlist_twice"]
    c w
  show ?thesis by blast
qed

text \<open>
  C2 as stated fails. From the default customer hook, extend with a fetcher \<open>f1\<close> that
  answers \<open>"f1"\<close> by itself, then extend the result with a fetcher \<open>f2\<close> that hands its
  options to the raw transport it is given. Were \<open>f1\<close> the raw transport of \<open>f2\<close>, the
  second hook would answer \<open>"f1"\<close> without a request, as the first does; it makes the
  request to the provider's transport and answers with the server's body.
\<close>

theorem extend_chain_counterexample:
  "observe (extend_with (extend_with default_hook constant_fetcher Undefined) raw_fetcher Undefined)
     = Some ((Inr (JObject [''customer'' \<mapsto> signed_customer]), empty_shop),
             [Request customer_defaultOpts],
             [''revalidateOnFocus'' \<mapsto> JBool False])
   \<and> observe (extend_with default_hook constant_fetcher Undefined)
     = Some ((Inr (JString ''f1''), empty_shop), [], [''revalidateOnFocus'' \<mapsto> JBool False])"
  by (simp add: default_hook_def extend_with_def observe_def customer_default_def start_def
      customer_extendHook_eq customer_extend_def call_customer_hook_def useCustomer_def
      useData_def raw_fetcher_def constant_fetcher_def
      run_transport performed_transport spread_def customer_defaultOpts_def)


text \<open>
  C6, as the code has it. The cache-policy options bound to the hook that \<open>extend\<close>
  returns are the shallow merge of \<open>extraOptions\<close> into the module's own default
  \<open>{revalidateOnFocus: false}\<close>, whatever options are bound to the hook that \<open>extend\<close> was
  called on: an option given in \<open>extraOptions\<close> has the given value, any other option has the
  value of that default (\<open>false\<close> for \<open>revalidateOnFocus\<close>, absent otherwise).
\<close>

theorem extend_options_over_module_default:
  assumes "customer_extend h customTransportFn extraOptions s = Some (h', s')"
  shows "bound_options s' h' = Some (spread [''revalidateOnFocus'' \<mapsto> JBool False] extraOptions)
       \<and> (props extraOptions opt = Some v \<longrightarrow>
             map_option (\<lambda>opts. opts opt) (bound_options s' h') = Some (Some v))
       \<and> (props extraOptions opt = None \<longrightarrow>
             map_option (\<lambda>opts. opts opt) (bound_options s' h')
               = Some ([''revalidateOnFocus'' \<mapsto> JBool False] opt))"
proof -
  from assms have "customer_extendHook customTransportFn extraOptions s = (h', s')"
    by (auto dest: customer_extend_Some)
  then have "bound_options s' h' =
      Some (spread [''revalidateOnFocus'' \<mapsto> JBool False] extraOptions)"
    by (simp add: bound_options_def call_customer_hook_new useCustomer_def)
  then show ?thesis
    by (simp add: spread_field)
qed

theorem extend_options_over_module_default_witness:
  "customer_extend (fst customer_once) raw_fetcher (Val [''dedupingInterval'' \<mapsto> JNumber 2000])
       (snd customer_once)
     = Some (customer_extendHook raw_fetcher (Val [''dedupingInterval'' \<mapsto> JNumber 2000])
               (snd customer_once))
   \<and> props (Val [''dedupingInterval'' \<mapsto> JNumber 2000]) ''dedupingInterval''
       = Some (JNumber 2000)
   \<and> props (Val [''dedupingInterval'' \<mapsto> JNumber 2000]) ''revalidateOnFocus'' = None
   \<and> map_option (\<lambda>opts. opts ''dedupingInterval'')
        (bound_options
           (snd (customer_extendHook raw_fetcher (Val [''dedupingInterval'' \<mapsto> JNumber 2000])
                   (snd customer_once)))
           (fst (customer_extendHook raw_fetcher (Val [''dedupingInterval'' \<mapsto> JNumber 2000])
                   (snd customer_once))))
       = Some (Some (JNumber 2000))
   \<and> map_option (\<lambda>opts. opts ''revalidateOnFocus'')
        (bound_options
           (snd (customer_extendHook raw_fetcher (Val [''dedupingInterval'' \<mapsto> JNumber 2000])
                   (snd customer_once)))
           (fst (customer_extendHook raw_fetcher (Val [''dedupingInterval'' \<mapsto> JNumber 2000])
                   (snd customer_once))))
       = Some (Some (JBool False))"
proof -
  let ?extra = "Val [''dedupingInterval'' \<mapsto> JNumber 2000]"
  let ?new = "customer_extendHook raw_fetcher ?extra (snd customer_once)"
  have h: "customer_extend (fst customer_once) raw_fetcher ?extra (snd customer_once)
             = Some (fst ?new, snd ?new)"
    by (simp add: customer_once_def customer_extendHook_eq customer_extend_def start_def)
  have given_field: "props ?extra ''dedupingInterval'' = Some (JNumber 2000)"
    and absent: "props ?extra ''revalidateOnFocus'' = None"
    by simp_all
  from extend_options_over_module_default
         [OF h, where opt = "''dedupingInterval''" and v = "JNumber 2000"] given_field
  have given: "map_option (\<lambda>opts. opts ''dedupingInterval'') (bound_options (snd ?new) (fst ?new))
      = Some (Some (JNumber 2000))"
    by blast
  from extend_options_over_module_default
         [OF h, where opt = "''revalidateOnFocus''" and v = JNull] absent
  have "map_option (\<lambda>opts. opts ''revalidateOnFocus'') (bound_options (snd ?new) (fst ?new))
      = Some ([''revalidateOnFocus'' \<mapsto> JBool False] ''revalidateOnFocus'')"
    by blast
  then have kept: "map_option (\<lambda>opts. opts ''revalidateOnFocus'')
      (bound_options (snd ?new) (fst ?new)) = Some (Some (JBool False))"
    by simp
  from h have "customer_extend (fst customer_once) raw_fetcher ?extra (snd customer_once)
      = Some ?new"
    by simp
  with given kept given_field absent show ?thesis
    by blast
qed

text \<open>
  C6 as stated fails. Extend the default customer hook with the option
  \<open>revalidateOnFocus: true\<close>, then extend the result with no options: the first hook has
  \<open>revalidateOnFocus\<close> \<open>true\<close>, the second has it \<open>false\<close>, so the option it did not specify
  did not keep the value bound to the hook that was extended.
\<close>

theorem extend_options_counterexample:
  "observed_option ''revalidateOnFocus''
     (extend_with default_hook constant_fetcher (Val [''revalidateOnFocus'' \<mapsto> JBool True]))
     = Some (Some (JBool True))
   \<and> observed_option ''revalidateOnFocus''
     (extend_with
        (extend_with default_hook constant_fetcher (Val [''revalidateOnFocus'' \<mapsto> JBool True]))
        raw_fetcher Undefined)
     = Some (Some (JBool False))"
  by (simp add: observed_option_def bound_options_def default_hook_def extend_with_def
      customer_default_def start_def customer_extendHook_eq customer_extend_def
      call_customer_hook_def useCustomer_def spread_def)

text \<open>
  C7. \<open>extend\<close> on a hook leaves the world (network and cache) as it was, allocates one
  new function object and changes no other: every function object of the heap before the
  call, the hook \<open>extend\<close> was called on among them, is the same after it, and that hook
  called after it does what it did before. The new hook has the property \<open>extend\<close>, and
  \<open>extend\<close> can be called on it in turn. This holds of the customer hook and of the
  wishlist hook.
\<close>

theorem extend_is_pure_construction:
  "(customer_extend h f opt s = Some (h', s') \<longrightarrow>
      world s' = world s
    \<and> h' = length (heap s) \<and> length (heap s') = Suc (length (heap s))
    \<and> (\<forall>a < length (heap s). heap s' ! a = heap s ! a)
    \<and> heap s' ! h = heap s ! h
    \<and> call_customer_hook useCommerceCustomer s' h = call_customer_hook useCommerceCustomer s h
    \<and> properties (heap s' ! h') ''extend'' = Some Customer_extendHook
    \<and> customer_extend h' f2 opt2 s' = Some (customer_extendHook f2 opt2 s'))
 \<and> (wishlist_extend k g t = Some (k', t') \<longrightarrow>
      world t' = world t
    \<and> k' = length (heap t) \<and> length (heap t') = Suc (length (heap t))
    \<and> (\<forall>a < length (heap t). heap t' ! a = heap t ! a)
    \<and> heap t' ! k = heap t ! k
    \<and> call_wishlist_hook imports t' k = call_wishlist_hook imports t k
    \<and> properties (heap t' ! k') ''extend'' = Some Wishlist_extendHook
    \<and> wishlist_extend k' g2 t' = Some (wishlist_extendHook g2 t'))"
proof (intro conjI impI)
  assume "customer_extend h f opt s = Some (h', s')"
  then have e: "customer_extendHook f opt s = (h', s')" and lt: "h < length (heap s)"
    by (auto dest: customer_extend_Some)
  note fr = customer_extendHook_frame [OF e]
  show "world s' = world s" by (rule fr)
  show "h' = length (heap s)" by (rule fr)
  show "length (heap s') = Suc (length (heap s))" by (simp add: fr)
  show "\<forall>a < length (heap s). heap s' ! a = heap s ! a" by (simp add: fr nth_append)
  show "heap s' ! h = heap s ! h" using lt by (simp add: fr nth_append)
  show "call_customer_hook useCommerceCustomer s' h = call_customer_hook useCommerceCustomer s h"
    using lt by (simp add: call_customer_hook_def fr nth_append)
  show "properties (heap s' ! h') ''extend'' = Some Customer_extendHook" by (simp add: fr)
  show "customer_extend h' f2 opt2 s' = Some (customer_extendHook f2 opt2 s')"
    using e by (rule customer_extend_after_extendHook)
next
  assume "wishlist_extend k g t = Some (k', t')"
  then have e: "wishlist_extendHook g t = (k', t')" and lt: "k < length (heap t)"
    by (auto dest: wishlist_extend_Some)
  note fr = wishlist_extendHook_frame [OF e]
  show "world t' = world t" by (rule fr)
  show "k' = length (heap t)" by (rule fr)
  show "length (heap t') = Suc (length (heap t))" by (simp add: fr)
  show "\<forall>a < length (heap t). heap t' ! a = heap t ! a" by (simp add: fr nth_append)
  show "heap t' ! k = heap t ! k" using lt by (simp add: fr nth_append)
  show "call_wishlist_hook imports t' k = call_wishlist_hook imports t k"
    using lt by (simp add: call_wishlist_hook_def fr nth_append)
  show "properties (heap t' ! k') ''extend'' = Some Wishlist_extendHook" by (simp add: fr)
  show "wishlist_extend k' g2 t' = Some (wishlist_extendHook g2 t')"
    using e by (rule wishlist_extend_after_extendHook)
qed

theorem extend_is_pure_construction_witness:
  "customer_extend (fst customer_once) raw_fetcher Undefined (snd customer_once)
     = Some (fst customer_twice, snd customer_twice)
   \<and> wishlist_extend (fst wishlist_once) wishlist_fetcher (snd wishlist_once)
     = Some (fst wishlist_twice, snd wishlist_twice)
   \<and> (0::nat) < length (heap (snd customer_once))
   \<and> (0::nat) < length (heap (snd wishlist_once))
   \<and> world (snd customer_twice) = empty_shop
   \<and> fst customer_once = 0 \<and> fst customer_twice = 1
   \<and> heap (snd customer_twice) ! 0 = heap (snd customer_once) ! 0
   \<and> closure (heap (snd customer_twice) ! 0)
       = UseCustomer constant_fetcher (Val [''revalidateOnFocus'' \<mapsto> JBool True])
   \<and> properties (heap (snd customer_twice) ! 1) ''extend'' = Some Customer_extendHook
   \<and> world (snd wishlist_twice) = empty_shop
   \<and> fst wishlist_once = 0 \<and> fst wishlist_twice = 1
   \<and> heap (snd wishlist_twice) ! 0 = heap (snd wishlist_once) ! 0
   \<and> closure (heap (snd wishlist_twice) ! 0) = UseAddItem forward_wishlist_fetcher
   \<and> properties (heap (snd wishlist_twice) ! 1) ''extend'' = Some Wishlist_extendHook"
proof -
  have c: "customer_extend (fst customer_once) raw_fetcher Undefined (snd customer_once)
             = Some (fst customer_twice, snd customer_twice)"
    by (simp add: customer_once_def customer_twice_def customer_extendHook_eq
        customer_extend_def start_def)
  have w: "wishlist_extend (fst wishlist_once) wishlist_fetcher (snd wishlist_once)
             = Some (fst wishlist_twice, snd wishlist_twice)"
    by (simp add: wishlist_once_def wishlist_twice_def wishlist_extendHook_eq
        wishlist_extend_def start_def)
  have b: "(0::nat) < length (heap (snd customer_once))"
    "(0::nat) < length (heap (snd wishlist_once))"
    "fst customer_once = 0" "fst wishlist_once = 0"
    "world (snd customer_once) = empty_shop" "world (snd wishlist_once) = empty_shop"
    "closure (heap (snd customer_once) ! 0)
       = UseCustomer constant_fetcher (Val [''revalidateOnFocus'' \<mapsto> JBool True])"
    "closure (heap (snd wishlist_once) ! 0) = UseAddItem forward_wishlist_fetcher"
    by (simp_all add: customer_once_def wishlist_once_def customer_extendHook_eq
        wishlist_extendHook_eq start_def)
  note th = extend_is_pure_construction
    [where h = "fst customer_once" and f = raw_fetcher and opt = Undefined
       and s = "snd customer_once" and h' = "fst customer_twice" and s' = "snd customer_twice"
       and k = "fst wishlist_once" and g = wishlist_fetcher
       and t = "snd wishlist_once" and k' = "fst wishlist_twice" and t' = "snd wishlist_twice"]
  from th c have
    "world (snd customer_twice) = world (snd customer_once)"
    "fst customer_twice = length (heap (snd customer_once))"
    "length (heap (snd customer_twice)) = Suc (length (heap (snd customer_once)))"
    "heap (snd customer_twice) ! fst customer_once = heap (snd customer_once) ! fst customer_once"
    "properties (heap (snd customer_twice) ! fst customer_twice) ''extend''
       = Some Customer_extendHook"
    by blast+
  moreover from th w have
    "world (snd wishlist_twice) = world (snd wishlist_once)"
    "fst wishlist_twice = length (heap (snd wishlist_once))"
    "length (heap (snd wishlist_twice)) = Suc (length (heap (snd wishlist_once)))"
    "heap (snd wishlist_twice) ! fst wishlist_once = heap (snd wishlist_once) ! fst wishlist_once"
    "properties (heap (snd wishlist_twice) ! fst wishlist_twice) ''extend''
       = Some Wishlist_extendHook"
    by blast+
  moreover have "length (heap (snd customer_once)) = 1" "length (heap (snd wishlist_once)) = 1"
    by (simp_all add: customer_once_def wishlist_once_def customer_extendHook_eq
        wishlist_extendHook_eq start_def)
  ultimately show ?thesis
    using c w b by simp
qed


text \<open>
  C8, as the code has it. \<open>extend\<close> with the fetcher that forwards its arguments to the
  default fetcher, and no options, yields a hook that behaves as the module's default
  hook, whatever hook \<open>extend\<close> was called on: called, it does what the default export
  does. So it is indistinguishable from the hook it was made from when that hook is
  bound to the default fetcher and to no options of its own (the default export is),
  for every \<open>useCommerceCustomer\<close> (for every imported hook, on the wishlist side).
\<close>

theorem extend_identity_is_default_hook:
  "(customer_extend h forward_customer_fetcher Undefined s = Some (h', s') \<longrightarrow>
      call_customer_hook useCommerceCustomer s' h' =
        Some (useCommerceCustomer customer_defaultOpts [] customer_fetcher
                [''revalidateOnFocus'' \<mapsto> JBool False])
    \<and> (closure (heap s ! h) = UseCustomer customer_fetcher swr \<and> props swr = Map.empty \<longrightarrow>
         call_customer_hook useCommerceCustomer s' h' = call_customer_hook useCommerceCustomer s h))
 \<and> (wishlist_extend k forward_wishlist_fetcher t = Some (k', t') \<longrightarrow>
      call_wishlist_hook imports t' k' = Some (useAddItem imports wishlist_fetcher)
    \<and> (closure (heap t ! k) = UseAddItem wishlist_fetcher \<longrightarrow>
         call_wishlist_hook imports t' k' = call_wishlist_hook imports t k))"
proof (intro conjI impI)
  assume "customer_extend h forward_customer_fetcher Undefined s = Some (h', s')"
  then have "customer_extend h customer_fetcher Undefined s = Some (h', s')"
    by (simp only: forward_customer_fetcher_eq)
  then have e: "customer_extendHook customer_fetcher Undefined s = (h', s')"
    and lt: "h < length (heap s)"
    by (blast dest: customer_extend_Some)+
  have new: "call_customer_hook useCommerceCustomer s' h' =
      Some (useCustomer useCommerceCustomer customer_fetcher Undefined)"
    using e by (rule call_customer_hook_new)
  then show "call_customer_hook useCommerceCustomer s' h' =
        Some (useCommerceCustomer customer_defaultOpts [] customer_fetcher
                [''revalidateOnFocus'' \<mapsto> JBool False])"
    by (simp add: useCustomer_def spread_def)
  assume old: "closure (heap s ! h) = UseCustomer customer_fetcher swr \<and> props swr = Map.empty"
  then have "call_customer_hook useCommerceCustomer s h =
      Some (useCustomer useCommerceCustomer customer_fetcher swr)"
    using lt by (blast intro: call_customer_hook_closure)
  also have "useCustomer useCommerceCustomer customer_fetcher swr =
      useCustomer useCommerceCustomer customer_fetcher Undefined"
    using old by (blast intro: useCustomer_no_options)
  finally show "call_customer_hook useCommerceCustomer s' h' =
      call_customer_hook useCommerceCustomer s h"
    using new by simp
next
  assume "wishlist_extend k forward_wishlist_fetcher t = Some (k', t')"
  then have "wishlist_extend k wishlist_fetcher t = Some (k', t')"
    by (simp only: forward_wishlist_fetcher_eq)
  then have e: "wishlist_extendHook wishlist_fetcher t = (k', t')"
    and lt: "k < length (heap t)"
    by (blast dest: wishlist_extend_Some)+
  show new: "call_wishlist_hook imports t' k' = Some (useAddItem imports wishlist_fetcher)"
    using e by (rule call_wishlist_hook_new)
  assume "closure (heap t ! k) = UseAddItem wishlist_fetcher"
  with lt have "call_wishlist_hook imports t k = Some (useAddItem imports wishlist_fetcher)"
    by (rule call_wishlist_hook_closure)
  with new show "call_wishlist_hook imports t' k' = call_wishlist_hook imports t k"
    by simp
qed

theorem extend_identity_is_default_hook_witness:
  "customer_extend (fst (customer_default start)) forward_customer_fetcher Undefined
       (snd (customer_default start))
     = Some (customer_extendHook forward_customer_fetcher Undefined (snd (customer_default start)))
   \<and> closure (heap (snd (customer_default start)) ! fst (customer_default start))
       = UseCustomer customer_fetcher Undefined
   \<and> props Undefined = Map.empty
   \<and> call_customer_hook (useData transport)
        (snd (customer_extendHook forward_customer_fetcher Undefined
                (snd (customer_default start))))
        (fst (customer_extendHook forward_customer_fetcher Undefined
                (snd (customer_default start))))
     = call_customer_hook (useData transport)
         (snd (customer_default start)) (fst (customer_default start))
   \<and> wishlist_extend (fst (wishlist_default start)) forward_wishlist_fetcher
       (snd (wishlist_default start))
     = Some (wishlist_extendHook forward_wishlist_fetcher (snd (wishlist_default start)))
   \<and> closure (heap (snd (wishlist_default start)) ! fst (wishlist_default start))
       = UseAddItem wishlist_fetcher
   \<and> call_wishlist_hook (shop_imports signed_customer)
        (snd (wishlist_extendHook forward_wishlist_fetcher (snd (wishlist_default start))))
        (fst (wishlist_extendHook forward_wishlist_fetcher (snd (wishlist_default start))))
     = call_wishlist_hook (shop_imports signed_customer)
         (snd (wishlist_default start)) (fst (wishlist_default start))"
proof -
  let ?s = "snd (customer_default start) :: (effect, shop) state"
  let ?new = "customer_extendHook forward_customer_fetcher Undefined ?s"
  let ?t = "snd (wishlist_default start) :: (effect, shop) state"
  let ?new' = "wishlist_extendHook forward_wishlist_fetcher ?t"
  have c: "customer_extend (fst (customer_default start)) forward_customer_fetcher Undefined ?s
             = Some (fst ?new, snd ?new)"
    by (simp add: customer_default_def customer_extendHook_eq customer_extend_def start_def)
  have c': "closure (heap ?s ! fst (customer_default start :: nat \<times> (effect, shop) state))
              = UseCustomer customer_fetcher Undefined \<and> props Undefined = Map.empty"
    by (simp add: customer_default_def customer_extendHook_eq start_def)
  have w: "wishlist_extend (fst (wishlist_default start)) forward_wishlist_fetcher ?t
             = Some (fst ?new', snd ?new')"
    by (simp add: wishlist_default_def wishlist_extendHook_eq wishlist_extend_def start_def)
  have w': "closure (heap ?t ! fst (wishlist_default start :: nat \<times> (effect, shop) state))
              = UseAddItem wishlist_fetcher"
    by (simp add: wishlist_default_def wishlist_extendHook_eq start_def)
  note th = extend_identity_is_default_hook
    [where h = "fst (customer_default start :: nat \<times> (effect, shop) state)" and s = ?s
       and h' = "fst ?new" and s' = "snd ?new" and swr = Undefined
       and useCommerceCustomer = "useData transport"
       and k = "fst (wishlist_default start :: nat \<times> (effect, shop) state)" and t = ?t
       and k' = "fst ?new'" and t' = "snd ?new'"
       and ?imports = "shop_imports signed_customer"]
  from th c c' have
    "call_customer_hook (useData transport) (snd ?new) (fst ?new)
       = call_customer_hook (useData transport) ?s (fst (customer_default start))"
    by blast
  moreover from th w w' have
    "call_wishlist_hook (shop_imports signed_customer) (snd ?new') (fst ?new')
       = call_wishlist_hook (shop_imports signed_customer) ?t (fst (wishlist_default start))"
    by blast
  ultimately show ?thesis
    using c c' w w' by simp
qed

text \<open>
  C8 as stated fails for a hook that is not the default one. Extend the default customer
  hook with a fetcher that answers \<open>"f1"\<close> by itself; then extend that hook with the
  forwarding fetcher and no options. The two hooks are told apart in the shop: the first
  answers \<open>"f1"\<close> and makes no request, the second requests the customer from the server.
\<close>

theorem extend_identity_counterexample:
  "observe (extend_with (extend_with default_hook constant_fetcher Undefined)
              forward_customer_fetcher Undefined)
   \<noteq> observe (extend_with default_hook constant_fetcher Undefined)"
  by (simp add: default_hook_def extend_with_def observe_def customer_default_def start_def
      customer_extendHook_eq customer_extend_def call_customer_hook_def useCustomer_def
      useData_def raw_fetcher_def constant_fetcher_def
      forward_customer_fetcher_def customer_fetcher_def run_await shop_customer_request
      signed_customer_def)

section \<open>Concurrent subscriptions\<close>

lemma count_list_remove1_other: "k \<noteq> k' \<Longrightarrow> count_list (remove1 k' xs) k = count_list xs k"
  by (induction xs) auto

lemma distinct_count_le: "distinct xs \<Longrightarrow> count_list xs k \<le> Suc 0"
  by (induction xs) (auto simp add: count_list_0_iff)

lemma loading_at_iff:
  "loading_at c k \<longleftrightarrow> (\<exists>e. entries c k = Some e \<and> entry_status e = Loading)"
  by (simp add: loading_at_def split: option.splits)

lemma cache_inv_iff:
  "cache_inv c \<longleftrightarrow> distinct (in_flight c) \<and> (\<forall>k \<in> set (in_flight c). loading_at c k)"
  by (simp add: cache_inv_def list_all_iff)


lemma cache_inv_subscribe:
  assumes "cache_inv c"
  shows "cache_inv (subscribe key tok c)"
proof -
  from assms have d: "distinct (in_flight c)"
    and l: "\<And>k. k \<in> set (in_flight c) \<Longrightarrow> loading_at c k"
    by (simp_all add: cache_inv_iff)
  show ?thesis
  proof (cases "entries c key")
    case None
    then have "\<not> loading_at c key" by (simp add: loading_at_iff)
    with l have "key \<notin> set (in_flight c)" by blast
    with None d l show ?thesis
      by (auto simp add: subscribe_def issue_fetch_def cache_inv_iff loading_at_iff)
  next
    case (Some e)
    show ?thesis
    proof (cases "entry_status e = Loading")
      case True
      with Some d l show ?thesis
        by (auto simp add: subscribe_def cache_inv_iff loading_at_iff)
    next
      case False
      with Some have "\<not> loading_at c key" by (simp add: loading_at_iff)
      with l have "key \<notin> set (in_flight c)" by blast
      with Some False d l show ?thesis
        by (auto simp add: subscribe_def issue_fetch_def cache_inv_iff loading_at_iff)
    qed
  qed
qed

lemma cache_inv_unsubscribe:
  assumes "cache_inv c"
  shows "cache_inv (unsubscribe key tok c)"
proof -
  from assms have d: "distinct (in_flight c)"
    and l: "\<And>k. k \<in> set (in_flight c) \<Longrightarrow> loading_at c k"
    by (simp_all add: cache_inv_iff)
  show ?thesis
  proof (cases "entries c key")
    case None
    with assms show ?thesis by (simp add: unsubscribe_def)
  next
    case (Some e)
    show ?thesis
    proof (cases "entry_status e = Loading")
      case True
      with Some d l show ?thesis
        by (auto simp add: unsubscribe_def cache_inv_iff loading_at_iff Let_def)
    next
      case False
      with Some have "\<not> loading_at c key" by (simp add: loading_at_iff)
      with l have "key \<notin> set (in_flight c)" by blast
      with Some False d l show ?thesis
        by (auto simp add: unsubscribe_def cache_inv_iff loading_at_iff Let_def)
    qed
  qed
qed

lemma cache_inv_settle_fetch:
  assumes "cache_inv c"
  shows "cache_inv (settle_fetch key r c)"
proof (cases "key \<in> set (in_flight c)")
  case False
  with assms show ?thesis by (simp add: settle_fetch_def)
next
  case True
  from assms have d: "distinct (in_flight c)"
    and l: "\<And>k. k \<in> set (in_flight c) \<Longrightarrow> loading_at c k"
    by (simp_all add: cache_inv_iff)
  from d have s: "set (remove1 key (in_flight c)) = set (in_flight c) - {key}"
    by simp
  from l True obtain e where e: "entries c key = Some e"
    by (auto simp add: loading_at_iff)
  from True e d s l show ?thesis
    by (auto simp add: settle_fetch_def cache_inv_iff loading_at_iff)
qed

lemma cache_inv_step: "cache_inv c \<Longrightarrow> cache_inv (cache_step c ev)"
  by (cases ev) (simp_all add: cache_inv_subscribe cache_inv_unsubscribe cache_inv_settle_fetch)

lemma cache_inv_run_events: "cache_inv c \<Longrightarrow> cache_inv (run_events evs c)"
  unfolding run_events_def
  by (induction evs arbitrary: c) (simp_all add: cache_inv_step)

lemma cache_inv_empty: "cache_inv empty_cache"
  by (simp add: cache_inv_def empty_cache_def)

lemma step_other_key:
  assumes "event_key ev \<noteq> K"
  shows "entries (cache_step c ev) K = entries c K"
    and "count_list (issued (cache_step c ev)) K = count_list (issued c) K"
    and "count_list (in_flight (cache_step c ev)) K = count_list (in_flight c) K"
  using assms
  by (cases ev;
      simp add: subscribe_def unsubscribe_def settle_fetch_def issue_fetch_def Let_def
        count_list_remove1_other split: option.splits)+

lemma subscribe_loading:
  "entries c K = Some e \<Longrightarrow> entry_status e = Loading \<Longrightarrow>
   subscribe K tok c = c\<lparr>entries := (entries c)(K \<mapsto> e\<lparr>subscribers := subscribers e @ [tok]\<rparr>)\<rparr>"
  by (simp add: subscribe_def)

lemma subscribe_absent:
  "entries c K = None \<Longrightarrow>
   subscribe K tok c =
     c\<lparr>entries := (entries c)(K \<mapsto>
          \<lparr>entry_data = None, entry_error = None, entry_status = Loading,
           subscribers = [tok], stale = False\<rparr>),
       in_flight := K # in_flight c, issued := K # issued c\<rparr>"
  by (simp add: subscribe_def issue_fetch_def)

lemma run_events_Cons: "run_events (ev # evs) c = run_events evs (cache_step c ev)"
  by (simp add: run_events_def)

lemma run_events_Nil: "run_events [] c = c"
  by (simp add: run_events_def)

text \<open>While the fetch for \<open>K\<close> is in flight, further subscriptions to \<open>K\<close> only join the
  entry's subscribers.\<close>

lemma subscribes_while_loading:
  "entries c K = Some e \<Longrightarrow> entry_status e = Loading \<Longrightarrow> only_subscribes K evs \<Longrightarrow>
     entries (run_events evs c) K = Some (e\<lparr>subscribers := subscribers e @ subscribed K evs\<rparr>)
   \<and> count_list (issued (run_events evs c)) K = count_list (issued c) K
   \<and> count_list (in_flight (run_events evs c)) K = count_list (in_flight c) K"
proof (induction evs arbitrary: c e)
  case Nil
  then show ?case by (simp add: run_events_Nil)
next
  case (Cons ev evs)
  show ?case
  proof (cases "event_key ev = K")
    case False
    with Cons.prems have os: "only_subscribes K evs"
      and sub: "subscribed K (ev # evs) = subscribed K evs"
      by (cases ev; simp)+
    from False Cons.prems have "entries (cache_step c ev) K = Some e"
      by (simp add: step_other_key)
    from Cons.IH [OF this Cons.prems(2) os] False sub show ?thesis
      by (simp add: run_events_Cons step_other_key)
  next
    case True
    with Cons.prems obtain tok where ev: "ev = Subscribe K tok" and os: "only_subscribes K evs"
      by (cases ev) auto
    let ?e = "e\<lparr>subscribers := subscribers e @ [tok]\<rparr>"
    let ?c = "c\<lparr>entries := (entries c)(K \<mapsto> ?e)\<rparr>"
    have st: "cache_step c ev = ?c"
      using ev Cons.prems by (simp add: subscribe_loading)
    have "entries ?c K = Some ?e" "entry_status ?e = Loading"
      using Cons.prems by simp_all
    from Cons.IH [OF this os] ev st show ?thesis
      by (simp add: run_events_Cons)
  qed
qed

lemma subscribes_from_absent:
  "entries c K = None \<Longrightarrow> only_subscribes K evs \<Longrightarrow> subscribed K evs \<noteq> [] \<Longrightarrow>
     entries (run_events evs c) K =
       Some \<lparr>entry_data = None, entry_error = None, entry_status = Loading,
             subscribers = subscribed K evs, stale = False\<rparr>
   \<and> count_list (issued (run_events evs c)) K = Suc (count_list (issued c) K)
   \<and> count_list (in_flight (run_events evs c)) K = Suc (count_list (in_flight c) K)"
proof (induction evs arbitrary: c)
  case Nil
  then show ?case by simp
next
  case (Cons ev evs)
  show ?case
  proof (cases "event_key ev = K")
    case False
    with Cons.prems have os: "only_subscribes K evs"
      and sub: "subscribed K (ev # evs) = subscribed K evs"
      by (cases ev; simp)+
    from False Cons.prems have "entries (cache_step c ev) K = None"
      by (simp add: step_other_key)
    from Cons.IH [OF this os] Cons.prems(3) False sub show ?thesis
      by (simp add: run_events_Cons step_other_key)
  next
    case True
    with Cons.prems obtain tok where ev: "ev = Subscribe K tok" and os: "only_subscribes K evs"
      by (cases ev) auto
    let ?e = "\<lparr>entry_data = None, entry_error = None, entry_status = Loading,
           subscribers = [tok], stale = False\<rparr>"
    let ?c = "c\<lparr>entries := (entries c)(K \<mapsto> ?e), in_flight := K # in_flight c,
                 issued := K # issued c\<rparr>"
    have st: "cache_step c ev = ?c"
      using ev Cons.prems by (simp add: subscribe_absent)
    have "entries ?c K = Some ?e" "entry_status ?e = Loading"
      by simp_all
    from subscribes_while_loading [OF this os] ev st show ?thesis
      by (simp add: run_events_Cons)
  qed
qed

lemma settle_fetch_delivers:
  "entries c K = Some e \<Longrightarrow> K \<in> set (in_flight c) \<Longrightarrow>
   delivered (settle_fetch K r c) = delivered c @ map (\<lambda>tok. (tok, r)) (subscribers e)"
  by (simp add: settle_fetch_def)

text \<open>
  C3, on the cache as the spec describes it. From a cache that has no entry for the key
  \<open>K\<close>, run any interleaving \<open>evs\<close> of events in which the events on \<open>K\<close> are \<open>subscribe\<close>
  calls, at least one of them (\<open>subscribed K evs\<close> lists the N subscribers), and the events
  on other keys are arbitrary. Then the run issues exactly one transport call for \<open>K\<close>, one
  fetch for \<open>K\<close> is in flight after it, at no moment of the run is any key in flight more
  than once, and when that fetch settles with \<open>r\<close> every one of the N subscribers is
  delivered \<open>r\<close>.
\<close>

theorem concurrent_subscribes_share_one_fetch:
  assumes "cache_inv c" and "entries c K = None"
    and "only_subscribes K evs" and "subscribed K evs \<noteq> []"
  shows "count_list (issued (run_events evs c)) K = count_list (issued c) K + 1
       \<and> count_list (in_flight (run_events evs c)) K = 1
       \<and> (\<forall>n key. count_list (in_flight (run_events (take n evs) c)) key \<le> 1)
       \<and> (\<forall>tok \<in> set (subscribed K evs).
            (tok, r) \<in> set (delivered (settle_fetch K r (run_events evs c))))"
proof -
  note main = subscribes_from_absent [OF assms(2,3,4)]
  from assms(1,2) have "K \<notin> set (in_flight c)"
    by (auto simp add: cache_inv_iff loading_at_iff)
  then have zero: "count_list (in_flight c) K = 0"
    by (simp add: count_list_0_iff)
  with main have one: "count_list (in_flight (run_events evs c)) K = 1"
    by simp
  then have "count_list (in_flight (run_events evs c)) K \<noteq> 0" by simp
  then have mem: "K \<in> set (in_flight (run_events evs c))"
    by (simp add: count_list_0_iff)
  have "\<forall>n key. count_list (in_flight (run_events (take n evs) c)) key \<le> 1"
  proof (intro allI)
    fix n key
    have "distinct (in_flight (run_events (take n evs) c))"
      using cache_inv_run_events [OF assms(1)] by (simp add: cache_inv_iff)
    then show "count_list (in_flight (run_events (take n evs) c)) key \<le> 1"
      using distinct_count_le by simp
  qed
  moreover have "\<forall>tok \<in> set (subscribed K evs).
            (tok, r) \<in> set (delivered (settle_fetch K r (run_events evs c)))"
    using main mem by (simp add: settle_fetch_delivers)
  ultimately show ?thesis using main one by simp
qed

theorem concurrent_subscribes_share_one_fetch_witness:
  "cache_inv empty_cache \<and> entries empty_cache ''wishlist'' = None
   \<and> only_subscribes ''wishlist''
        [Subscribe ''wishlist'' 1, Subscribe ''cart'' 7, Subscribe ''wishlist'' 2,
         Settle ''cart'' (Inr JNull), Subscribe ''wishlist'' 3]
   \<and> subscribed ''wishlist''
        [Subscribe ''wishlist'' 1, Subscribe ''cart'' 7, Subscribe ''wishlist'' 2,
         Settle ''cart'' (Inr JNull), Subscribe ''wishlist'' 3] = [1, 2, 3]
   \<and> count_list (issued (run_events
        [Subscribe ''wishlist'' 1, Subscribe ''cart'' 7, Subscribe ''wishlist'' 2,
         Settle ''cart'' (Inr JNull), Subscribe ''wishlist'' 3] empty_cache)) ''wishlist'' = 1
   \<and> (1, Inr (JString ''items'')) \<in> set (delivered
          (settle_fetch ''wishlist'' (Inr (JString ''items''))
             (run_events
                [Subscribe ''wishlist'' 1, Subscribe ''cart'' 7, Subscribe ''wishlist'' 2,
                 Settle ''cart'' (Inr JNull), Subscribe ''wishlist'' 3] empty_cache)))
   \<and> (2, Inr (JString ''items'')) \<in> set (delivered
          (settle_fetch ''wishlist'' (Inr (JString ''items''))
             (run_events
                [Subscribe ''wishlist'' 1, Subscribe ''cart'' 7, Subscribe ''wishlist'' 2,
                 Settle ''cart'' (Inr JNull), Subscribe ''wishlist'' 3] empty_cache)))
   \<and> (3, Inr (JString ''items'')) \<in> set (delivered
          (settle_fetch ''wishlist'' (Inr (JString ''items''))
             (run_events
                [Subscribe ''wishlist'' 1, Subscribe ''cart'' 7, Subscribe ''wishlist'' 2,
                 Settle ''cart'' (Inr JNull), Subscribe ''wishlist'' 3] empty_cache)))"
proof -
  let ?evs = "[Subscribe ''wishlist'' 1, Subscribe ''cart'' 7, Subscribe ''wishlist'' 2,
         Settle ''cart'' (Inr JNull), Subscribe ''wishlist'' 3]"
  have h1: "cache_inv empty_cache" by (rule cache_inv_empty)
  have h2: "entries empty_cache ''wishlist'' = None" by (simp add: empty_cache_def)
  have h3: "only_subscribes ''wishlist'' ?evs" by simp
  have s: "subscribed ''wishlist'' ?evs = [1, 2, 3]" by simp
  then have h4: "subscribed ''wishlist'' ?evs \<noteq> []" by simp
  have i: "count_list (issued empty_cache) ''wishlist'' = 0" by (simp add: empty_cache_def)
  from concurrent_subscribes_share_one_fetch
         [OF h1 h2 h3 h4, where r = "Inr (JString ''items'')"] s i h1 h2 h3
  show ?thesis by simp
qed

end
